theory Spec2Isabelle
  imports Complex_Main "HOL-Library.Sublist"
begin

section \<open>The quantum workload generator\<close>

text \<open>
  A shallow embedding of \<^verbatim>\<open>datasetwithtime_generation.py\<close>: the class
  \<^verbatim>\<open>QuantumWorkloadGenerator\<close>, its six generators, the pass-through mapping and the
  dispatcher \<^verbatim>\<open>generate_workload\<close>.

  Modelling conventions.
  \<^item> A \<^verbatim>\<open>timedelta\<close> is its exact number of microseconds and a \<^verbatim>\<open>datetime\<close> is
    its number of microseconds since the epoch, both unbounded integers. Python's range
    limits (years 1 to 9999, a timedelta below 10^9 days) are outside the model.
  \<^item> Python floats are exact rationals. \<^verbatim>\<open>datetime.timestamp()\<close> is the number of
    microseconds divided by 10^6 (the local zone is taken to have a fixed offset of zero).
  \<^item> The two random sources (Python's \<^verbatim>\<open>random\<close> module, and NumPy's generator behind
    \<^verbatim>\<open>DataFrame.sample\<close>) are streams of raw natural numbers handed in by the
    environment. \<^verbatim>\<open>random.random()\<close> keeps 53 bits of a raw number, as CPython does, and
    \<^verbatim>\<open>random.randint\<close> reduces a raw number into its range, so every outcome the library
    can produce is the outcome of some stream.
  \<^item> An exception is an \<open>Inl\<close> result; a written CSV file is an entry of the
    environment's file store.
\<close>

subsection \<open>Exceptions\<close>

datatype error = ValueError | ZeroDivisionError | TypeError

subsection \<open>Time: \<^verbatim>\<open>datetime\<close> and \<^verbatim>\<open>timedelta\<close>\<close>

type_synonym timedelta = int

type_synonym datetime = int

text \<open>Rounding to the nearest integer, ties to the even one: the rounding of
  \<^verbatim>\<open>timedelta(seconds=x)\<close> for a float, and of \<^verbatim>\<open>timedelta / int\<close>.\<close>

definition round_half_even :: "rat \<Rightarrow> int" where
  "round_half_even x =
     (let f = \<lfloor>x\<rfloor>; r = x - of_int f
      in if r < 1 / 2 then f
         else if 1 / 2 < r then f + 1
         else if even f then f else f + 1)"

text \<open>\<^verbatim>\<open>td.total_seconds()\<close>\<close>

definition total_seconds :: "timedelta \<Rightarrow> rat" where
  "total_seconds d = of_int d / 1000000"

text \<open>\<^verbatim>\<open>timedelta(seconds=x)\<close>\<close>

definition timedelta_seconds :: "rat \<Rightarrow> timedelta" where
  "timedelta_seconds x = round_half_even (x * 1000000)"

text \<open>\<^verbatim>\<open>td / k\<close> for an integer \<open>k\<close>: \<^verbatim>\<open>ZeroDivisionError\<close> when \<open>k = 0\<close>.\<close>

definition timedelta_truediv :: "timedelta \<Rightarrow> int \<Rightarrow> error + timedelta" where
  "timedelta_truediv d k =
     (if k = 0 then Inl ZeroDivisionError
      else Inr (round_half_even (of_int d / of_int k)))"

text \<open>\<^verbatim>\<open>dt.timestamp()\<close>, in seconds\<close>

definition datetime_timestamp :: "datetime \<Rightarrow> rat" where
  "datetime_timestamp t = of_int t / 1000000"

subsection \<open>The \<^verbatim>\<open>random\<close> module\<close>

type_synonym random_source = "nat \<Rightarrow> nat"

definition advance :: "random_source \<Rightarrow> random_source" where
  "advance g = (\<lambda>i. g (Suc i))"

text \<open>\<^verbatim>\<open>random.random()\<close>: a multiple of \<open>2^-53\<close> in \<open>[0, 1)\<close>.\<close>

definition random_random :: "random_source \<Rightarrow> rat \<times> random_source" where
  "random_random g = (of_nat (g 0 mod 2 ^ 53) / 2 ^ 53, advance g)"

text \<open>\<^verbatim>\<open>random.uniform(a, b)\<close> is \<^verbatim>\<open>a + (b - a) * random()\<close>.\<close>

definition random_uniform :: "rat \<Rightarrow> rat \<Rightarrow> random_source \<Rightarrow> rat \<times> random_source" where
  "random_uniform a b g = (case random_random g of (u, g') \<Rightarrow> (a + (b - a) * u, g'))"

text \<open>\<^verbatim>\<open>random.randint(a, b)\<close>: an integer of \<open>[a, b]\<close>; \<^verbatim>\<open>ValueError\<close> on an
  empty range.\<close>

definition random_randint :: "int \<Rightarrow> int \<Rightarrow> random_source \<Rightarrow> error + int \<times> random_source" where
  "random_randint a b g =
     (if b < a then Inl ValueError
      else Inr (a + int (g 0 mod nat (b - a + 1)), advance g))"

subsection \<open>Data frames\<close>

text \<open>A cell holds a value of the task pool (opaque), a float or an integer. A frame is
  its number of rows and its columns in order, each a name and one cell per row.\<close>

datatype 'a cell = PoolVal 'a | FloatVal rat | IntVal int

record 'a dataframe =
  nrows :: nat
  columns :: "(string \<times> 'a cell list) list"

definition column_names :: "'a dataframe \<Rightarrow> string list" where
  "column_names df = map fst (columns df)"

text \<open>\<^verbatim>\<open>df[name]\<close> read\<close>

definition get_column :: "'a dataframe \<Rightarrow> string \<Rightarrow> 'a cell list option" where
  "get_column df name = map_of (columns df) name"

text \<open>\<^verbatim>\<open>df.sample(n=n, replace=True)\<close>: \<open>n\<close> rows drawn with replacement, the row
  at position \<open>i\<close> chosen by the \<open>i\<close>-th raw number. A negative \<open>n\<close>, and a positive
  \<open>n\<close> on a frame with no rows, raise \<^verbatim>\<open>ValueError\<close>.\<close>

definition sample :: "'a dataframe \<Rightarrow> int \<Rightarrow> random_source \<Rightarrow> error + 'a dataframe \<times> random_source" where
  "sample df n g =
     (if n < 0 then Inl ValueError
      else if nrows df = 0 \<and> 0 < n then Inl ValueError
      else
        let picks = map (\<lambda>i. g i mod nrows df) [0..<nat n]
        in Inr (\<lparr>nrows = nat n,
                  columns = map (\<lambda>(name, cells). (name, map (\<lambda>r. cells ! r) picks)) (columns df)\<rparr>,
                (\<lambda>i. g (i + nat n))))"

text \<open>\<^verbatim>\<open>df[name] = values\<close> for a list: \<^verbatim>\<open>ValueError\<close> unless there is one value
  per row; an existing column is replaced where it stands, a new one goes last.\<close>

definition set_column :: "'a dataframe \<Rightarrow> string \<Rightarrow> 'a cell list \<Rightarrow> error + 'a dataframe" where
  "set_column df name vals =
     (if length vals \<noteq> nrows df then Inl ValueError
      else if name \<in> set (column_names df)
        then Inr (df\<lparr>columns := map (\<lambda>(c, cells). if c = name then (c, vals) else (c, cells)) (columns df)\<rparr>)
        else Inr (df\<lparr>columns := columns df @ [(name, vals)]\<rparr>))"

text \<open>\<^verbatim>\<open>df.insert(0, name, v)\<close> for a scalar \<open>v\<close>: \<^verbatim>\<open>ValueError\<close> when the column
  exists already.\<close>

definition insert_first :: "'a dataframe \<Rightarrow> string \<Rightarrow> 'a cell \<Rightarrow> error + 'a dataframe" where
  "insert_first df name v =
     (if name \<in> set (column_names df) then Inl ValueError
      else Inr (df\<lparr>columns := (name, replicate (nrows df) v) # columns df\<rparr>))"

text \<open>\<^verbatim>\<open>xs[:n]\<close>\<close>

definition slice_to :: "'b list \<Rightarrow> int \<Rightarrow> 'b list" where
  "slice_to xs n = (if 0 \<le> n then take (nat n) xs else take (nat (int (length xs) + n)) xs)"

subsection \<open>The environment of a call\<close>

record 'a env =
  clock :: datetime
  py_random :: random_source
  np_random :: random_source
  files :: "string \<rightharpoonup> 'a dataframe"

text \<open>\<^verbatim>\<open>df.to_csv(path, index=False)\<close>\<close>

definition to_csv :: "'a dataframe \<Rightarrow> string \<Rightarrow> 'a env \<Rightarrow> 'a env" where
  "to_csv df path e = e\<lparr>files := (files e)(path \<mapsto> df)\<rparr>"

text \<open>The local state of a generator: the list \<^verbatim>\<open>timestamps\<close>, the cursor
  \<^verbatim>\<open>current_time\<close> and the random source.\<close>

record cursor =
  timestamps :: "rat list"
  current_time :: datetime
  rnd :: random_source

subsection \<open>\<^verbatim>\<open>generate_single_spike_dataset\<close>\<close>

text \<open>The first loop, \<^verbatim>\<open>for _ in range(burst_tasks)\<close>: the cursor moves to each
  timestamp it draws.\<close>

primrec single_spike_burst :: "nat \<Rightarrow> timedelta \<Rightarrow> cursor \<Rightarrow> cursor" where
  "single_spike_burst 0 burst_duration s = s"
| "single_spike_burst (Suc k) burst_duration s =
     (case random_uniform 0 (total_seconds burst_duration) (rnd s) of
        (x, g) \<Rightarrow>
          let timestamp = current_time s + timedelta_seconds x
          in single_spike_burst k burst_duration
               \<lparr>timestamps = timestamps s @ [datetime_timestamp timestamp],
                current_time = timestamp, rnd = g\<rparr>)"

text \<open>The second loop, \<^verbatim>\<open>for _ in range(num_qtasks-burst_tasks)\<close>\<close>

primrec single_spike_normal :: "nat \<Rightarrow> timedelta \<Rightarrow> cursor \<Rightarrow> cursor" where
  "single_spike_normal 0 normal_interval s = s"
| "single_spike_normal (Suc k) normal_interval s =
     (let t = current_time s + normal_interval
      in single_spike_normal k normal_interval
           (s\<lparr>timestamps := timestamps s @ [datetime_timestamp t], current_time := t\<rparr>))"

definition single_spike_timestamps ::
  "int \<Rightarrow> timedelta \<Rightarrow> timedelta \<Rightarrow> int \<Rightarrow> datetime \<Rightarrow> random_source \<Rightarrow> cursor" where
  "single_spike_timestamps num_qtasks burst_duration normal_interval burst_tasks base_time g =
     single_spike_normal (nat (num_qtasks - burst_tasks)) normal_interval
       (single_spike_burst (nat burst_tasks) burst_duration
          \<lparr>timestamps = [], current_time = base_time, rnd = g\<rparr>)"

text \<open>The list of timestamps is assigned as it is: there is no slice to
  \<^verbatim>\<open>num_qtasks\<close> here.\<close>

definition generate_single_spike_dataset ::
  "'a dataframe \<Rightarrow> int \<Rightarrow> timedelta \<Rightarrow> timedelta \<Rightarrow> int \<Rightarrow> 'a env
     \<Rightarrow> error + 'a dataframe \<times> 'a env" where
  "generate_single_spike_dataset available_datasets num_qtasks burst_duration normal_interval
       burst_tasks e =
     (case sample available_datasets num_qtasks (np_random e) of
        Inl err \<Rightarrow> Inl err
      | Inr (sample_df, np) \<Rightarrow>
          (let s = single_spike_timestamps num_qtasks burst_duration normal_interval burst_tasks
                     (clock e) (py_random e)
           in (case set_column sample_df ''timestamp'' (map FloatVal (timestamps s)) of
                 Inl err \<Rightarrow> Inl err
               | Inr df1 \<Rightarrow>
                   (case insert_first df1 ''subset'' (IntVal 1) of
                      Inl err \<Rightarrow> Inl err
                    | Inr df2 \<Rightarrow>
                        Inr (df2, to_csv df2 ''single_spike_dataset.csv''
                                    (e\<lparr>py_random := rnd s, np_random := np\<rparr>))))))"

subsection \<open>\<^verbatim>\<open>generate_bursty_dataset\<close>\<close>

text \<open>The burst loop, \<^verbatim>\<open>for _ in range(burst_tasks)\<close> with its \<^verbatim>\<open>break\<close>. The body
  runs only when \<open>burst_tasks\<close> is at least 1, so the float division never fails.\<close>

primrec bursty_burst :: "nat \<Rightarrow> int \<Rightarrow> timedelta \<Rightarrow> int \<Rightarrow> cursor \<Rightarrow> cursor" where
  "bursty_burst 0 num_qtasks burst_duration burst_tasks s = s"
| "bursty_burst (Suc k) num_qtasks burst_duration burst_tasks s =
     (if num_qtasks \<le> int (length (timestamps s)) then s
      else case random_uniform 0 (total_seconds burst_duration / of_int burst_tasks) (rnd s) of
        (x, g) \<Rightarrow>
          bursty_burst k num_qtasks burst_duration burst_tasks
            \<lparr>timestamps = timestamps s @ [datetime_timestamp (current_time s)],
             current_time = current_time s + timedelta_seconds x, rnd = g\<rparr>)"

text \<open>The low-activity loop, \<^verbatim>\<open>while len(timestamps) < num_qtasks\<close>\<close>

partial_function (option) bursty_idle :: "int \<Rightarrow> timedelta \<Rightarrow> cursor \<Rightarrow> cursor option" where
  "bursty_idle num_qtasks low_activity_interval s =
     (if int (length (timestamps s)) < num_qtasks
      then bursty_idle num_qtasks low_activity_interval
             (s\<lparr>timestamps := timestamps s @ [datetime_timestamp (current_time s)],
                current_time := current_time s + low_activity_interval\<rparr>)
      else Some s)"

declare bursty_idle.simps [code]

definition bursty_timestamps ::
  "int \<Rightarrow> timedelta \<Rightarrow> int \<Rightarrow> timedelta \<Rightarrow> datetime \<Rightarrow> random_source \<Rightarrow> cursor option" where
  "bursty_timestamps num_qtasks burst_duration burst_tasks low_activity_interval base_time g =
     bursty_idle num_qtasks low_activity_interval
       (bursty_burst (nat burst_tasks) num_qtasks burst_duration burst_tasks
          \<lparr>timestamps = [], current_time = base_time, rnd = g\<rparr>)"

definition generate_bursty_dataset ::
  "'a dataframe \<Rightarrow> int \<Rightarrow> timedelta \<Rightarrow> int \<Rightarrow> timedelta \<Rightarrow> 'a env
     \<Rightarrow> (error + 'a dataframe \<times> 'a env) option" where
  "generate_bursty_dataset available_datasets num_qtasks burst_duration burst_tasks
       low_activity_interval e =
     (case sample available_datasets num_qtasks (np_random e) of
        Inl err \<Rightarrow> Some (Inl err)
      | Inr (sample_df, np) \<Rightarrow>
          (case bursty_timestamps num_qtasks burst_duration burst_tasks low_activity_interval
                  (clock e) (py_random e) of
             None \<Rightarrow> None
           | Some s \<Rightarrow>
               Some (case set_column sample_df ''timestamp''
                            (map FloatVal (slice_to (timestamps s) num_qtasks)) of
                       Inl err \<Rightarrow> Inl err
                     | Inr df1 \<Rightarrow>
                         (case insert_first df1 ''subset'' (IntVal 1) of
                            Inl err \<Rightarrow> Inl err
                          | Inr df2 \<Rightarrow>
                              Inr (df2, to_csv df2 ''bursty_dataset.csv''
                                          (e\<lparr>py_random := rnd s, np_random := np\<rparr>))))))"

subsection \<open>\<^verbatim>\<open>simulate_regular_spikes\<close>\<close>

text \<open>The inner loop of a spike, \<^verbatim>\<open>for _ in range(spike_tasks)\<close> with its
  \<^verbatim>\<open>break\<close>; its body runs only when \<open>spike_tasks\<close> is at least 1.\<close>

primrec spike_burst :: "nat \<Rightarrow> int \<Rightarrow> timedelta \<Rightarrow> int \<Rightarrow> cursor \<Rightarrow> cursor" where
  "spike_burst 0 num_qtasks spike_interval spike_tasks s = s"
| "spike_burst (Suc k) num_qtasks spike_interval spike_tasks s =
     (if num_qtasks \<le> int (length (timestamps s)) then s
      else case random_uniform 0 (total_seconds spike_interval / of_int spike_tasks) (rnd s) of
        (x, g) \<Rightarrow>
          spike_burst k num_qtasks spike_interval spike_tasks
            \<lparr>timestamps = timestamps s @ [datetime_timestamp (current_time s)],
             current_time = current_time s + timedelta_seconds x, rnd = g\<rparr>)"

text \<open>One pass of \<^verbatim>\<open>for i in range(num_qtasks)\<close>. \<^verbatim>\<open>i % spike_tasks\<close> is
  evaluated first and raises \<^verbatim>\<open>ZeroDivisionError\<close> when \<open>spike_tasks = 0\<close>; the
  remainder of Python takes the sign of the divisor, as \<open>mod\<close> on \<open>int\<close> does.\<close>

definition regular_spikes_body ::
  "int \<Rightarrow> timedelta \<Rightarrow> int \<Rightarrow> timedelta \<Rightarrow> int \<Rightarrow> cursor \<Rightarrow> error + cursor" where
  "regular_spikes_body num_qtasks spike_interval spike_tasks normal_interval i s =
     (if spike_tasks = 0 then Inl ZeroDivisionError
      else if i mod spike_tasks = 0 \<and> i \<noteq> 0
        then Inr (spike_burst (nat spike_tasks) num_qtasks spike_interval spike_tasks
                    (s\<lparr>current_time := current_time s + spike_interval\<rparr>))
        else Inr (s\<lparr>timestamps := timestamps s @ [datetime_timestamp (current_time s)],
                    current_time := current_time s + normal_interval\<rparr>))"

fun regular_spikes_for ::
  "int \<Rightarrow> timedelta \<Rightarrow> int \<Rightarrow> timedelta \<Rightarrow> int list \<Rightarrow> cursor \<Rightarrow> error + cursor" where
  "regular_spikes_for num_qtasks spike_interval spike_tasks normal_interval [] s = Inr s"
| "regular_spikes_for num_qtasks spike_interval spike_tasks normal_interval (i # is) s =
     (case regular_spikes_body num_qtasks spike_interval spike_tasks normal_interval i s of
        Inl err \<Rightarrow> Inl err
      | Inr s' \<Rightarrow>
          regular_spikes_for num_qtasks spike_interval spike_tasks normal_interval is s')"

text \<open>\<^verbatim>\<open>range(n)\<close>\<close>

definition py_range :: "int \<Rightarrow> int list" where
  "py_range n = map int [0..<nat n]"

definition regular_spikes_timestamps ::
  "int \<Rightarrow> timedelta \<Rightarrow> int \<Rightarrow> timedelta \<Rightarrow> datetime \<Rightarrow> random_source \<Rightarrow> error + cursor" where
  "regular_spikes_timestamps num_qtasks spike_interval spike_tasks normal_interval base_time g =
     regular_spikes_for num_qtasks spike_interval spike_tasks normal_interval (py_range num_qtasks)
       \<lparr>timestamps = [], current_time = base_time, rnd = g\<rparr>"

definition simulate_regular_spikes ::
  "'a dataframe \<Rightarrow> int \<Rightarrow> timedelta \<Rightarrow> int \<Rightarrow> timedelta \<Rightarrow> 'a env
     \<Rightarrow> error + 'a dataframe \<times> 'a env" where
  "simulate_regular_spikes available_datasets num_qtasks spike_interval spike_tasks
       normal_interval e =
     (case sample available_datasets num_qtasks (np_random e) of
        Inl err \<Rightarrow> Inl err
      | Inr (sample_df, np) \<Rightarrow>
          (case regular_spikes_timestamps num_qtasks spike_interval spike_tasks normal_interval
                  (clock e) (py_random e) of
             Inl err \<Rightarrow> Inl err
           | Inr s \<Rightarrow>
               (case set_column sample_df ''timestamp''
                       (map FloatVal (slice_to (timestamps s) num_qtasks)) of
                  Inl err \<Rightarrow> Inl err
                | Inr df1 \<Rightarrow>
                    (case insert_first df1 ''subset'' (IntVal 1) of
                       Inl err \<Rightarrow> Inl err
                     | Inr df2 \<Rightarrow>
                         Inr (df2, to_csv df2 ''regular_spike_dataset.csv''
                                     (e\<lparr>py_random := rnd s, np_random := np\<rparr>))))))"

subsection \<open>\<^verbatim>\<open>simulate_ramp_up\<close> and \<^verbatim>\<open>simulate_ramp_down\<close>\<close>

text \<open>\<^verbatim>\<open>for i in range(num_qtasks)\<close>: the cursor is emitted, then advanced by
  \<^verbatim>\<open>initial_interval - i * interval_step\<close>.\<close>

fun ramp_up_for :: "timedelta \<Rightarrow> timedelta \<Rightarrow> int list \<Rightarrow> cursor \<Rightarrow> cursor" where
  "ramp_up_for initial_interval interval_step [] s = s"
| "ramp_up_for initial_interval interval_step (i # is) s =
     ramp_up_for initial_interval interval_step is
       (s\<lparr>timestamps := timestamps s @ [datetime_timestamp (current_time s)],
          current_time := current_time s + (initial_interval - i * interval_step)\<rparr>)"

text \<open>\<^verbatim>\<open>interval_step\<close> divides by \<^verbatim>\<open>num_qtasks - 1\<close>, after the sample has been
  drawn.\<close>

definition ramp_up_timestamps ::
  "int \<Rightarrow> timedelta \<Rightarrow> timedelta \<Rightarrow> datetime \<Rightarrow> random_source \<Rightarrow> error + cursor" where
  "ramp_up_timestamps num_qtasks initial_interval final_interval base_time g =
     (case timedelta_truediv (initial_interval - final_interval) (num_qtasks - 1) of
        Inl err \<Rightarrow> Inl err
      | Inr interval_step \<Rightarrow>
          Inr (ramp_up_for initial_interval interval_step (py_range num_qtasks)
                 \<lparr>timestamps = [], current_time = base_time, rnd = g\<rparr>))"

definition simulate_ramp_up ::
  "'a dataframe \<Rightarrow> int \<Rightarrow> timedelta \<Rightarrow> timedelta \<Rightarrow> 'a env \<Rightarrow> error + 'a dataframe \<times> 'a env" where
  "simulate_ramp_up available_datasets num_qtasks initial_interval final_interval e =
     (case sample available_datasets num_qtasks (np_random e) of
        Inl err \<Rightarrow> Inl err
      | Inr (sample_df, np) \<Rightarrow>
          (case ramp_up_timestamps num_qtasks initial_interval final_interval
                  (clock e) (py_random e) of
             Inl err \<Rightarrow> Inl err
           | Inr s \<Rightarrow>
               (case set_column sample_df ''timestamp''
                       (map FloatVal (slice_to (timestamps s) num_qtasks)) of
                  Inl err \<Rightarrow> Inl err
                | Inr df1 \<Rightarrow>
                    (case insert_first df1 ''subset'' (IntVal 1) of
                       Inl err \<Rightarrow> Inl err
                     | Inr df2 \<Rightarrow>
                         Inr (df2, to_csv df2 ''ramp_up_dataset.csv''
                                     (e\<lparr>py_random := rnd s, np_random := np\<rparr>))))))"

fun ramp_down_for :: "timedelta \<Rightarrow> timedelta \<Rightarrow> int list \<Rightarrow> cursor \<Rightarrow> cursor" where
  "ramp_down_for initial_interval interval_step [] s = s"
| "ramp_down_for initial_interval interval_step (i # is) s =
     ramp_down_for initial_interval interval_step is
       (s\<lparr>timestamps := timestamps s @ [datetime_timestamp (current_time s)],
          current_time := current_time s + (initial_interval + i * interval_step)\<rparr>)"

definition ramp_down_timestamps ::
  "int \<Rightarrow> timedelta \<Rightarrow> timedelta \<Rightarrow> datetime \<Rightarrow> random_source \<Rightarrow> error + cursor" where
  "ramp_down_timestamps num_qtasks initial_interval final_interval base_time g =
     (case timedelta_truediv (final_interval - initial_interval) (num_qtasks - 1) of
        Inl err \<Rightarrow> Inl err
      | Inr interval_step \<Rightarrow>
          Inr (ramp_down_for initial_interval interval_step (py_range num_qtasks)
                 \<lparr>timestamps = [], current_time = base_time, rnd = g\<rparr>))"

text \<open>In \<^verbatim>\<open>simulate_ramp_down\<close> the line that inserts the \<^verbatim>\<open>subset\<close> column is
  commented out: the frame is written and returned without it.\<close>

definition simulate_ramp_down ::
  "'a dataframe \<Rightarrow> int \<Rightarrow> timedelta \<Rightarrow> timedelta \<Rightarrow> 'a env \<Rightarrow> error + 'a dataframe \<times> 'a env" where
  "simulate_ramp_down available_datasets num_qtasks initial_interval final_interval e =
     (case sample available_datasets num_qtasks (np_random e) of
        Inl err \<Rightarrow> Inl err
      | Inr (sample_df, np) \<Rightarrow>
          (case ramp_down_timestamps num_qtasks initial_interval final_interval
                  (clock e) (py_random e) of
             Inl err \<Rightarrow> Inl err
           | Inr s \<Rightarrow>
               (case set_column sample_df ''timestamp''
                       (map FloatVal (slice_to (timestamps s) num_qtasks)) of
                  Inl err \<Rightarrow> Inl err
                | Inr df1 \<Rightarrow>
                    Inr (df1, to_csv df1 ''ramp_down_dataset.csv''
                                (e\<lparr>py_random := rnd s, np_random := np\<rparr>)))))"

subsection \<open>\<^verbatim>\<open>generate_random_bursts\<close>\<close>

text \<open>The loop of one burst, \<^verbatim>\<open>for _ in range(random.randint(1, max_tasks_in_burst))\<close>
  with its \<^verbatim>\<open>break\<close>. (\<^verbatim>\<open>burst_end_time\<close> is computed and never read.)\<close>

primrec random_bursts_burst :: "nat \<Rightarrow> int \<Rightarrow> timedelta \<Rightarrow> cursor \<Rightarrow> cursor" where
  "random_bursts_burst 0 num_qtasks burst_duration s = s"
| "random_bursts_burst (Suc k) num_qtasks burst_duration s =
     (if num_qtasks \<le> int (length (timestamps s)) then s
      else case random_uniform 0 (total_seconds burst_duration) (rnd s) of
        (x, g) \<Rightarrow>
          random_bursts_burst k num_qtasks burst_duration
            \<lparr>timestamps = timestamps s @ [datetime_timestamp (current_time s)],
             current_time = current_time s + timedelta_seconds x, rnd = g\<rparr>)"

text \<open>One pass of the body of \<^verbatim>\<open>while len(timestamps) < num_qtasks\<close>\<close>

definition random_bursts_step ::
  "int \<Rightarrow> rat \<Rightarrow> timedelta \<Rightarrow> int \<Rightarrow> timedelta \<Rightarrow> cursor \<Rightarrow> error + cursor" where
  "random_bursts_step num_qtasks burst_chance burst_duration max_tasks_in_burst normal_interval s =
     (case random_random (rnd s) of
        (u, g) \<Rightarrow>
          if u < burst_chance
          then (case random_randint 1 max_tasks_in_burst g of
                  Inl err \<Rightarrow> Inl err
                | Inr (k, g') \<Rightarrow>
                    Inr (random_bursts_burst (nat k) num_qtasks burst_duration (s\<lparr>rnd := g'\<rparr>)))
          else Inr (s\<lparr>timestamps := timestamps s @ [datetime_timestamp (current_time s)],
                      current_time := current_time s + normal_interval, rnd := g\<rparr>))"

partial_function (option) random_bursts_while ::
  "int \<Rightarrow> rat \<Rightarrow> timedelta \<Rightarrow> int \<Rightarrow> timedelta \<Rightarrow> cursor \<Rightarrow> (error + cursor) option" where
  "random_bursts_while num_qtasks burst_chance burst_duration max_tasks_in_burst normal_interval s =
     (if int (length (timestamps s)) < num_qtasks
      then (case random_bursts_step num_qtasks burst_chance burst_duration max_tasks_in_burst
                   normal_interval s of
              Inl err \<Rightarrow> Some (Inl err)
            | Inr s' \<Rightarrow>
                random_bursts_while num_qtasks burst_chance burst_duration max_tasks_in_burst
                  normal_interval s')
      else Some (Inr s))"

declare random_bursts_while.simps [code]

definition random_bursts_timestamps ::
  "int \<Rightarrow> rat \<Rightarrow> timedelta \<Rightarrow> int \<Rightarrow> timedelta \<Rightarrow> datetime \<Rightarrow> random_source
     \<Rightarrow> (error + cursor) option" where
  "random_bursts_timestamps num_qtasks burst_chance burst_duration max_tasks_in_burst
       normal_interval base_time g =
     random_bursts_while num_qtasks burst_chance burst_duration max_tasks_in_burst normal_interval
       \<lparr>timestamps = [], current_time = base_time, rnd = g\<rparr>"

definition generate_random_bursts ::
  "'a dataframe \<Rightarrow> int \<Rightarrow> rat \<Rightarrow> timedelta \<Rightarrow> int \<Rightarrow> timedelta \<Rightarrow> 'a env
     \<Rightarrow> (error + 'a dataframe \<times> 'a env) option" where
  "generate_random_bursts available_datasets num_qtasks burst_chance burst_duration
       max_tasks_in_burst normal_interval e =
     (case sample available_datasets num_qtasks (np_random e) of
        Inl err \<Rightarrow> Some (Inl err)
      | Inr (sample_df, np) \<Rightarrow>
          (case random_bursts_timestamps num_qtasks burst_chance burst_duration
                  max_tasks_in_burst normal_interval (clock e) (py_random e) of
             None \<Rightarrow> None
           | Some (Inl err) \<Rightarrow> Some (Inl err)
           | Some (Inr s) \<Rightarrow>
               Some (case set_column sample_df ''timestamp''
                            (map FloatVal (slice_to (timestamps s) num_qtasks)) of
                       Inl err \<Rightarrow> Inl err
                     | Inr df1 \<Rightarrow>
                         (case insert_first df1 ''subset'' (IntVal 1) of
                            Inl err \<Rightarrow> Inl err
                          | Inr df2 \<Rightarrow>
                              Inr (df2, to_csv df2 ''random_burst_dataset.csv''
                                          (e\<lparr>py_random := rnd s, np_random := np\<rparr>))))))"

subsection \<open>\<^verbatim>\<open>map_invocation_times\<close>\<close>

text \<open>The sample is drawn first, then the \<^verbatim>\<open>timestamp\<close> column is looked for. Both
  frames carry the default index, so the assignment of the column is by position.\<close>

definition map_invocation_times ::
  "'a dataframe \<Rightarrow> 'a dataframe \<Rightarrow> 'a env \<Rightarrow> error + 'a dataframe \<times> 'a env" where
  "map_invocation_times available_datasets invocation_times e =
     (let num_qtasks = int (nrows invocation_times)
      in case sample available_datasets num_qtasks (np_random e) of
           Inl err \<Rightarrow> Inl err
         | Inr (sample_df, np) \<Rightarrow>
             (case get_column invocation_times ''timestamp'' of
                None \<Rightarrow> Inl ValueError
              | Some col \<Rightarrow>
                  (case set_column sample_df ''timestamp'' col of
                     Inl err \<Rightarrow> Inl err
                   | Inr df1 \<Rightarrow>
                       (case insert_first df1 ''subset'' (IntVal 1) of
                          Inl err \<Rightarrow> Inl err
                        | Inr df2 \<Rightarrow>
                            Inr (df2, to_csv df2 ''map_invocation_times_dataset.csv''
                                        (e\<lparr>np_random := np\<rparr>))))))"

subsection \<open>\<^verbatim>\<open>generate_workload\<close>\<close>

text \<open>The keyword arguments of a call, by the signature they fit; keywords that fit the
  signature of no generator are \<open>OtherArgs\<close>. Ramp-up and ramp-down take the same keywords.
  Keywords that do not fit the generator chosen raise \<^verbatim>\<open>TypeError\<close>.\<close>

datatype 'a kwargs =
    SingleSpikeArgs int timedelta timedelta int
  | BurstyArgs int timedelta int timedelta
  | RegularSpikesArgs int timedelta int timedelta
  | RampArgs int timedelta timedelta
  | RandomBurstsArgs int rat timedelta int timedelta
  | InvocationArgs "'a dataframe"
  | OtherArgs

definition generate_workload ::
  "'a dataframe \<Rightarrow> int \<Rightarrow> 'a kwargs \<Rightarrow> 'a env \<Rightarrow> (error + 'a dataframe \<times> 'a env) option" where
  "generate_workload available_datasets scenario kw e =
     (if scenario = 1 then
        (case kw of
           BurstyArgs num_qtasks burst_duration burst_tasks low_activity_interval \<Rightarrow>
             generate_bursty_dataset available_datasets num_qtasks burst_duration burst_tasks
               low_activity_interval e
         | _ \<Rightarrow> Some (Inl TypeError))
      else if scenario = 2 then
        (case kw of
           RegularSpikesArgs num_qtasks spike_interval spike_tasks normal_interval \<Rightarrow>
             Some (simulate_regular_spikes available_datasets num_qtasks spike_interval
                     spike_tasks normal_interval e)
         | _ \<Rightarrow> Some (Inl TypeError))
      else if scenario = 3 then
        (case kw of
           RampArgs num_qtasks initial_interval final_interval \<Rightarrow>
             Some (simulate_ramp_up available_datasets num_qtasks initial_interval
                     final_interval e)
         | _ \<Rightarrow> Some (Inl TypeError))
      else if scenario = 4 then
        (case kw of
           RampArgs num_qtasks initial_interval final_interval \<Rightarrow>
             Some (simulate_ramp_down available_datasets num_qtasks initial_interval
                     final_interval e)
         | _ \<Rightarrow> Some (Inl TypeError))
      else if scenario = 5 then
        (case kw of
           RandomBurstsArgs num_qtasks burst_chance burst_duration max_tasks_in_burst
               normal_interval \<Rightarrow>
             generate_random_bursts available_datasets num_qtasks burst_chance burst_duration
               max_tasks_in_burst normal_interval e
         | _ \<Rightarrow> Some (Inl TypeError))
      else if scenario = 6 then
        (case kw of
           InvocationArgs invocation_times \<Rightarrow>
             Some (map_invocation_times available_datasets invocation_times e)
         | _ \<Rightarrow> Some (Inl TypeError))
      else Some (Inl ValueError))"

subsection \<open>Notions the properties are stated with\<close>

text \<open>The inter-arrival gaps of a sequence of timestamps: each timestamp minus the one
  before it.\<close>

fun gaps :: "rat list \<Rightarrow> rat list" where
  "gaps (x # y # xs) = (y - x) # gaps (y # xs)"
| "gaps xs = []"

text \<open>A cursor that has moved forward only since \<open>base_time\<close>: the timestamps emitted so
  far are in order, none is before \<open>base_time\<close> and none is after the cursor.\<close>

definition ordered_from :: "datetime \<Rightarrow> cursor \<Rightarrow> bool" where
  "ordered_from base_time s =
     (base_time \<le> current_time s \<and> sorted (timestamps s) \<and>
      list_all (\<lambda>t. datetime_timestamp base_time \<le> t \<and> t \<le> datetime_timestamp (current_time s))
        (timestamps s))"


subsection \<open>A pool and an environment for the examples\<close>

text \<open>A pool of two tasks with one attribute, a clock at the epoch, a \<^verbatim>\<open>random\<close>
  source whose raw numbers are all zero, and no file written yet.\<close>

definition example_pool :: "nat dataframe" where
  "example_pool = \<lparr>nrows = 2, columns = [(''qubits'', [PoolVal 5, PoolVal 7])]\<rparr>"

definition example_env :: "nat env" where
  "example_env = \<lparr>clock = 0, py_random = (\<lambda>i. 0), np_random = (\<lambda>i. i), files = Map.empty\<rparr>"

section \<open>Arithmetic of times and draws\<close>

lemma round_half_even_of_int: "round_half_even (of_int n) = n"
  by (simp add: round_half_even_def)

lemma round_half_even_nonneg: "0 \<le> x \<Longrightarrow> 0 \<le> round_half_even x"
  by (auto simp: round_half_even_def Let_def)

lemma round_half_even_near: "\<bar>of_int (round_half_even x) - x\<bar> \<le> 1 / 2"
proof -
  have "of_int \<lfloor>x\<rfloor> \<le> x" "x < of_int \<lfloor>x\<rfloor> + 1"
    by linarith+
  then show ?thesis
    by (auto simp: round_half_even_def Let_def abs_le_iff)
qed


lemma random_uniform_eq:
  "random_uniform a b g = (a + (b - a) * fst (random_random g), advance g)"
  by (simp add: random_uniform_def random_random_def)







lemma randint_Inr:
  assumes "random_randint 1 m g = Inr (k, g')"
  shows "1 \<le> k" and "k \<le> m" and "g' = advance g"
proof -
  from assms have m: "1 \<le> m" and k: "k = 1 + int (g 0 mod nat m)" and g': "g' = advance g"
    by (auto simp: random_randint_def split: if_splits)
  from m have "g 0 mod nat m < nat m" by simp
  with m have "int (g 0 mod nat m) < m" by linarith
  with k show "1 \<le> k" "k \<le> m" by simp_all
  show "g' = advance g" by (rule g')
qed

section \<open>Data frames\<close>

lemma map_of_replace:
  "name \<in> fst ` set cols \<Longrightarrow>
   map_of (map (\<lambda>(c, cells). if c = name then (c, vals) else (c, cells)) cols) name = Some vals"
  by (induction cols) auto

lemma set_column_Inr:
  assumes "set_column df name vals = Inr df1"
  shows "get_column df1 name = Some vals" "nrows df1 = nrows df" "length vals = nrows df"
proof -
  from assms have len: "length vals = nrows df"
    by (auto simp: set_column_def split: if_splits)
  show "length vals = nrows df" by (rule len)
  show "nrows df1 = nrows df"
    using assms by (auto simp: set_column_def split: if_splits)
  show "get_column df1 name = Some vals"
  proof (cases "name \<in> set (column_names df)")
    case True
    with assms len have "columns df1 = map (\<lambda>(c, cells). if c = name then (c, vals) else (c, cells)) (columns df)"
      by (auto simp: set_column_def)
    with True show ?thesis
      by (simp add: get_column_def column_names_def map_of_replace)
  next
    case False
    with assms len have "columns df1 = columns df @ [(name, vals)]"
      by (auto simp: set_column_def)
    moreover from False have "map_of (columns df) name = None"
      by (simp add: column_names_def map_of_eq_None_iff)
    ultimately show ?thesis
      by (simp add: get_column_def map_add_def)
  qed
qed

lemma map_fst_replace:
  "map fst (map (\<lambda>(c, cells). if c = name then (c, vals) else (c, cells)) cols) = map fst cols"
  by (induction cols) auto

lemma set_column_names:
  assumes "set_column df name vals = Inr df1"
  shows "set (column_names df1) = insert name (set (column_names df))"
proof (cases "name \<in> set (column_names df)")
  case True
  with assms have "columns df1 = map (\<lambda>(c, cells). if c = name then (c, vals) else (c, cells)) (columns df)"
    by (auto simp: set_column_def split: if_splits)
  then have "column_names df1 = column_names df"
    by (simp only: column_names_def map_fst_replace)
  with True show ?thesis by auto
next
  case False
  with assms have "columns df1 = columns df @ [(name, vals)]"
    by (auto simp: set_column_def split: if_splits)
  then show ?thesis by (simp add: column_names_def)
qed

lemma set_column_ok:
  "length vals = nrows df \<Longrightarrow> \<exists>df1. set_column df name vals = Inr df1"
  by (simp add: set_column_def)

lemma insert_first_Inr:
  assumes "insert_first df name v = Inr df2"
  shows "columns df2 = (name, replicate (nrows df) v) # columns df"
    and "name \<notin> set (column_names df)" and "nrows df2 = nrows df"
  using assms by (auto simp: insert_first_def split: if_splits)

lemma sample_Inr:
  assumes "sample df n g = Inr (sdf, g')"
  shows "0 \<le> n" "nrows sdf = nat n" "column_names sdf = column_names df"
  using assms by (auto simp: sample_def column_names_def Let_def split: if_splits)

lemma sample_negative: "n < 0 \<Longrightarrow> sample df n g = Inl ValueError"
  by (simp add: sample_def)

lemma sample_ok:
  "0 \<le> n \<Longrightarrow> 0 < nrows df \<Longrightarrow> \<exists>sdf g'. sample df n g = Inr (sdf, g')"
  by (simp add: sample_def Let_def)

text \<open>The three closing lines of a generator: assign the column, insert \<open>subset\<close>,
  write the file.\<close>

lemma attach_Inr:
  assumes "(case set_column sdf ''timestamp'' vals of
              Inl err \<Rightarrow> Inl err
            | Inr df1 \<Rightarrow>
                (case insert_first df1 ''subset'' (IntVal 1) of
                   Inl err \<Rightarrow> Inl err
                 | Inr df2 \<Rightarrow> Inr (df2, to_csv df2 path e1))) = Inr (df, e')"
  shows "get_column df ''timestamp'' = Some vals"
    and "length vals = nrows sdf"
    and "columns df \<noteq> [] \<and> hd (columns df) = (''subset'', replicate (nrows sdf) (IntVal 1))"
    and "files e' = (files e1)(path \<mapsto> df)"
proof -
  from assms obtain df1 where df1: "set_column sdf ''timestamp'' vals = Inr df1"
    and ins: "insert_first df1 ''subset'' (IntVal 1) = Inr df" and e': "e' = to_csv df path e1"
    by (auto split: sum.splits)
  note sc = set_column_Inr [OF df1] and ic = insert_first_Inr [OF ins]
  show "length vals = nrows sdf" by (rule sc(3))
  show "get_column df ''timestamp'' = Some vals"
    using sc(1) ic(1) by (simp add: get_column_def)
  show "columns df \<noteq> [] \<and> hd (columns df) = (''subset'', replicate (nrows sdf) (IntVal 1))"
    using ic(1) sc(2) by simp
  show "files e' = (files e1)(path \<mapsto> df)"
    using e' by (simp add: to_csv_def)
qed

lemma attach_ok:
  assumes "length vals = nrows sdf" and "''subset'' \<notin> set (column_names sdf)"
  shows "\<exists>df e'. (case set_column sdf ''timestamp'' vals of
              Inl err \<Rightarrow> Inl err
            | Inr df1 \<Rightarrow>
                (case insert_first df1 ''subset'' (IntVal 1) of
                   Inl err \<Rightarrow> Inl err
                 | Inr df2 \<Rightarrow> Inr (df2, to_csv df2 path e1))) = Inr (df, e')"
proof -
  from set_column_ok [OF assms(1)] obtain df1 where df1: "set_column sdf ''timestamp'' vals = Inr df1"
    by blast
  from set_column_names [OF df1] assms(2) have "''subset'' \<notin> set (column_names df1)"
    by simp
  then show ?thesis using df1 by (simp add: insert_first_def)
qed

lemma length_slice_to: "0 \<le> n \<Longrightarrow> length (slice_to xs n) = min (nat n) (length xs)"
  by (simp add: slice_to_def)

section \<open>Cursors that only move forward\<close>





lemma ordered_from_sorted:
  "ordered_from b s \<Longrightarrow> sorted (timestamps s) \<and> (\<forall>t\<in>set (timestamps s). datetime_timestamp b \<le> t)"
  by (simp add: ordered_from_def list_all_iff)

section \<open>The loops of \<^verbatim>\<open>generate_single_spike_dataset\<close>\<close>

lemma single_spike_burst_length:
  "length (timestamps (single_spike_burst k bd s)) = length (timestamps s) + k"
  by (induction k arbitrary: s) (simp_all add: random_uniform_eq Let_def)

lemma single_spike_normal_length:
  "length (timestamps (single_spike_normal k ni s)) = length (timestamps s) + k"
  by (induction k arbitrary: s) (simp_all add: Let_def)

lemma single_spike_timestamps_length:
  "length (timestamps (single_spike_timestamps n bd ni bt b g)) = nat bt + nat (n - bt)"
  by (simp add: single_spike_timestamps_def single_spike_burst_length single_spike_normal_length)



section \<open>The loops with a \<^verbatim>\<open>break\<close>\<close>



lemma random_bursts_burst_prefix:
  "prefix (timestamps s) (timestamps (random_bursts_burst k n bd s))"
proof (induction k arbitrary: s)
  case 0
  then show ?case by simp
next
  case (Suc k)
  show ?case
    using Suc.IH [of "\<lparr>timestamps = timestamps s @ [datetime_timestamp (current_time s)],
        current_time = current_time s +
          timedelta_seconds (fst (random_uniform 0 (total_seconds bd) (rnd s))),
        rnd = advance (rnd s)\<rparr>"]
    by (auto simp: random_uniform_eq dest: append_prefixD)
qed




text \<open>A burst that starts below the count emits the cursor first.\<close>

lemma random_bursts_burst_first:
  assumes "int (length (timestamps s)) < n"
  shows "prefix (timestamps s @ [datetime_timestamp (current_time s)])
     (timestamps (random_bursts_burst (Suc k) n bd s))"
proof -
  obtain x g where u: "random_uniform 0 (total_seconds bd) (rnd s) = (x, g)"
    by (cases "random_uniform 0 (total_seconds bd) (rnd s)")
  let ?s1 = "\<lparr>timestamps = timestamps s @ [datetime_timestamp (current_time s)],
              current_time = current_time s + timedelta_seconds x, rnd = g\<rparr>"
  have "prefix (timestamps ?s1) (timestamps (random_bursts_burst k n bd ?s1))"
    by (rule random_bursts_burst_prefix)
  then show ?thesis using assms u by simp
qed


section \<open>The sampling step\<close>

lemma sample_Inl: "sample df n g = Inl err \<Longrightarrow> err = ValueError"
  by (auto simp: sample_def Let_def split: if_splits)

lemma sample_zero: "\<exists>sdf g'. sample df 0 g = Inr (sdf, g') \<and> nrows sdf = 0"
  by (simp add: sample_def)

lemma single_spike_negative:
  "n < 0 \<Longrightarrow> generate_single_spike_dataset pool n bd ni bt e = Inl ValueError"
  by (simp add: generate_single_spike_dataset_def sample_negative)

lemma bursty_negative:
  "n < 0 \<Longrightarrow> generate_bursty_dataset pool n bd bt low e = Some (Inl ValueError)"
  by (simp add: generate_bursty_dataset_def sample_negative)

lemma regular_spikes_negative:
  "n < 0 \<Longrightarrow> simulate_regular_spikes pool n si st ni e = Inl ValueError"
  by (simp add: simulate_regular_spikes_def sample_negative)

lemma ramp_up_negative:
  "n < 0 \<Longrightarrow> simulate_ramp_up pool n ini fin e = Inl ValueError"
  by (simp add: simulate_ramp_up_def sample_negative)

lemma ramp_down_negative:
  "n < 0 \<Longrightarrow> simulate_ramp_down pool n ini fin e = Inl ValueError"
  by (simp add: simulate_ramp_down_def sample_negative)

lemma random_bursts_negative:
  "n < 0 \<Longrightarrow> generate_random_bursts pool n ch bd m ni e = Some (Inl ValueError)"
  by (simp add: generate_random_bursts_def sample_negative)

text \<open>
  Claim C7, as amended. The sampling step raises (a \<^verbatim>\<open>ValueError\<close>) for every negative
  count, and with it every generator does; for the count 0 it does not raise: it returns a
  sample of no rows.
\<close>

theorem sampler_rejects_negative_counts:
  "n < 0 \<Longrightarrow>
     sample pool n g = Inl ValueError \<and>
     generate_single_spike_dataset pool n bd ni bt e = Inl ValueError \<and>
     generate_bursty_dataset pool n bd bt low e = Some (Inl ValueError) \<and>
     simulate_regular_spikes pool n si st ni e = Inl ValueError \<and>
     simulate_ramp_up pool n ini fin e = Inl ValueError \<and>
     simulate_ramp_down pool n ini fin e = Inl ValueError \<and>
     generate_random_bursts pool n ch bd m ni e = Some (Inl ValueError) \<and>
     (\<exists>sdf g'. sample pool 0 g = Inr (sdf, g') \<and> nrows sdf = 0)"
  using sample_zero [of pool g]
  by (simp add: sample_negative single_spike_negative bursty_negative regular_spikes_negative
      ramp_up_negative ramp_down_negative random_bursts_negative)

text \<open>Claim C7, as amended, at the count \<open>-1\<close>.\<close>

theorem sampler_rejects_negative_counts_witness:
  "(-1::int) < 0 \<and>
     sample example_pool (-1) (\<lambda>i. i) = Inl ValueError \<and>
     generate_single_spike_dataset example_pool (-1) 1000000 1000000 1 example_env = Inl ValueError \<and>
     generate_bursty_dataset example_pool (-1) 1000000 1 1000000 example_env = Some (Inl ValueError) \<and>
     simulate_regular_spikes example_pool (-1) 1000000 1 1000000 example_env = Inl ValueError \<and>
     simulate_ramp_up example_pool (-1) 1000000 1000000 example_env = Inl ValueError \<and>
     simulate_ramp_down example_pool (-1) 1000000 1000000 example_env = Inl ValueError \<and>
     generate_random_bursts example_pool (-1) 0 1000000 1 1000000 example_env = Some (Inl ValueError)"
  using sampler_rejects_negative_counts [of "-1" example_pool "\<lambda>i. i" 1000000 1000000 1 example_env
      1000000 1000000 1 1000000 1000000 0 1]
  by simp

text \<open>Claim C7 as it is written fails at the count 0: the sample is drawn, with no rows.\<close>

theorem sampler_accepts_zero:
  "map_sum id fst (sample example_pool 0 (\<lambda>i. i)) = Inr \<lparr>nrows = 0, columns = [(''qubits'', [])]\<rparr>"
  by (simp add: sample_def example_pool_def)

section \<open>The count of timestamps of the single spike\<close>

lemma single_spike_overrun:
  assumes "n < bt"
  shows "generate_single_spike_dataset pool n bd ni bt e = Inl ValueError"
proof (cases "sample pool n (np_random e)")
  case (Inl err)
  then show ?thesis
    by (simp add: generate_single_spike_dataset_def sample_Inl)
next
  case (Inr r)
  obtain sdf np where r: "r = (sdf, np)" by (cases r)
  from Inr r have rows: "nrows sdf = nat n" and n: "0 \<le> n"
    using sample_Inr [of pool n "np_random e" sdf np] by simp_all
  have "nat bt + nat (n - bt) \<noteq> nat n"
    using assms n by simp
  then have "set_column sdf ''timestamp''
      (map FloatVal (timestamps (single_spike_timestamps n bd ni bt (clock e) (py_random e))))
      = Inl ValueError"
    by (simp add: set_column_def single_spike_timestamps_length rows)
  then show ?thesis
    using Inr r by (simp add: generate_single_spike_dataset_def Let_def)
qed

text \<open>
  Claim C1 at its failing input. With one task asked for and a burst of two, the two loops
  of \<^verbatim>\<open>generate_single_spike_dataset\<close> leave two timestamps; the list is assigned
  without a slice, so the assignment to the frame of one row raises \<^verbatim>\<open>ValueError\<close> and
  no dataset is returned.
\<close>

theorem single_spike_burst_exceeds_count:
  "length (timestamps (single_spike_timestamps 1 1000000 1000000 2 (clock example_env)
      (py_random example_env))) = 2 \<and>
   generate_single_spike_dataset example_pool 1 1000000 1000000 2 example_env = Inl ValueError"
  by (simp add: single_spike_timestamps_length single_spike_overrun)

section \<open>The \<^verbatim>\<open>subset\<close> column\<close>

lemma ramp_down_columns:
  assumes "simulate_ramp_down pool n ini fin e = Inr (df, e')"
  shows "set (column_names df) = insert ''timestamp'' (set (column_names pool))"
proof -
  from assms have "\<exists>sdf np (s::cursor). sample pool n (np_random e) = Inr (sdf, np) \<and>
      set_column sdf ''timestamp'' (map FloatVal (slice_to (timestamps s) n)) = Inr df"
    by (auto simp: simulate_ramp_down_def split: sum.splits prod.splits)
  then obtain sdf np and s :: cursor where sam: "sample pool n (np_random e) = Inr (sdf, np)"
    and sc: "set_column sdf ''timestamp'' (map FloatVal (slice_to (timestamps s) n)) = Inr df"
    by blast
  from set_column_names [OF sc] sample_Inr(3) [OF sam] show ?thesis by simp
qed

lemma ramp_down_no_subset:
  "simulate_ramp_down pool n ini fin e = Inr (df, e') \<Longrightarrow>
   ''subset'' \<notin> set (column_names pool) \<Longrightarrow> ''subset'' \<notin> set (column_names df)"
  by (simp add: ramp_down_columns)

text \<open>
  Claim C2 at its failing input. \<^verbatim>\<open>simulate_ramp_down\<close> returns the sampled columns and
  the \<^verbatim>\<open>timestamp\<close> column; there is no \<^verbatim>\<open>subset\<close> column, while
  \<^verbatim>\<open>simulate_ramp_up\<close> on the same input puts it first.
\<close>

theorem ramp_down_lacks_subset:
  "map_sum id fst (simulate_ramp_down example_pool 2 1000000 3000000 example_env) =
     Inr \<lparr>nrows = 2,
          columns = [(''qubits'', [PoolVal 5, PoolVal 7]),
                     (''timestamp'', [FloatVal 0, FloatVal 1])]\<rparr> \<and>
   map_sum id fst (simulate_ramp_up example_pool 2 3000000 1000000 example_env) =
     Inr \<lparr>nrows = 2,
          columns = [(''subset'', [IntVal 1, IntVal 1]),
                     (''qubits'', [PoolVal 5, PoolVal 7]),
                     (''timestamp'', [FloatVal 0, FloatVal 3])]\<rparr>"
  by code_simp

section \<open>The ramps on small counts\<close>

lemma ramp_up_one:
  "simulate_ramp_up pool 1 ini fin e \<in> {Inl ValueError, Inl ZeroDivisionError} \<and>
   (0 < nrows pool \<longrightarrow> simulate_ramp_up pool 1 ini fin e = Inl ZeroDivisionError)"
proof (cases "sample pool 1 (np_random e)")
  case (Inl err)
  moreover from Inl have "nrows pool = 0"
    by (auto simp: sample_def Let_def split: if_splits)
  ultimately show ?thesis
    by (simp add: simulate_ramp_up_def sample_Inl)
next
  case (Inr r)
  then show ?thesis
    by (simp add: simulate_ramp_up_def ramp_up_timestamps_def timedelta_truediv_def
        split: prod.splits)
qed

lemma ramp_down_one:
  "simulate_ramp_down pool 1 ini fin e \<in> {Inl ValueError, Inl ZeroDivisionError} \<and>
   (0 < nrows pool \<longrightarrow> simulate_ramp_down pool 1 ini fin e = Inl ZeroDivisionError)"
proof (cases "sample pool 1 (np_random e)")
  case (Inl err)
  moreover from Inl have "nrows pool = 0"
    by (auto simp: sample_def Let_def split: if_splits)
  ultimately show ?thesis
    by (simp add: simulate_ramp_down_def sample_Inl)
next
  case (Inr r)
  then show ?thesis
    by (simp add: simulate_ramp_down_def ramp_down_timestamps_def timedelta_truediv_def
        split: prod.splits)
qed

text \<open>
  Claim C4, as amended. For a count below 2 other than 0 the ramp strategies fail: with
  \<^verbatim>\<open>ValueError\<close> from the sampling step for a negative count, and for the count 1 with
  \<^verbatim>\<open>ZeroDivisionError\<close> from the division by \<^verbatim>\<open>num_qtasks - 1\<close> (or, on a pool
  with no rows, with the \<^verbatim>\<open>ValueError\<close> of the sampling step, which comes first).
\<close>

theorem ramps_fail_below_two:
  assumes "n < 2" and "n \<noteq> 0"
  shows "simulate_ramp_up pool n ini fin e \<in> {Inl ValueError, Inl ZeroDivisionError} \<and>
         simulate_ramp_down pool n ini fin e \<in> {Inl ValueError, Inl ZeroDivisionError} \<and>
         (n = 1 \<and> 0 < nrows pool \<longrightarrow>
            simulate_ramp_up pool n ini fin e = Inl ZeroDivisionError \<and>
            simulate_ramp_down pool n ini fin e = Inl ZeroDivisionError)"
proof (cases "n < 0")
  case True
  then show ?thesis by (simp add: ramp_up_negative ramp_down_negative)
next
  case False
  with assms have "n = 1" by simp
  then show ?thesis
    using ramp_up_one [of pool ini fin e] ramp_down_one [of pool ini fin e] by simp
qed

text \<open>Claim C4, as amended, at the count 1, on the example pool.\<close>

theorem ramps_fail_below_two_witness:
  "(1::int) < 2 \<and> (1::int) \<noteq> 0 \<and> 0 < nrows example_pool \<and>
   simulate_ramp_up example_pool 1 3000000 1000000 example_env = Inl ZeroDivisionError \<and>
   simulate_ramp_down example_pool 1 1000000 3000000 example_env = Inl ZeroDivisionError"
proof -
  have rows: "0 < nrows example_pool" by (simp add: example_pool_def)
  from ramps_fail_below_two [of 1 example_pool 3000000 1000000 example_env] rows
  have "simulate_ramp_up example_pool 1 3000000 1000000 example_env = Inl ZeroDivisionError"
    by simp
  moreover from ramps_fail_below_two [of 1 example_pool 1000000 3000000 example_env] rows
  have "simulate_ramp_down example_pool 1 1000000 3000000 example_env = Inl ZeroDivisionError"
    by simp
  ultimately show ?thesis using rows by simp
qed

text \<open>Claim C4 as it is written fails at the count 0: nothing is divided by zero and the
  sample has no rows, so each ramp returns a dataset of no rows.\<close>

theorem ramps_accept_zero:
  "map_sum id fst (simulate_ramp_up example_pool 0 3000000 1000000 example_env) =
     Inr \<lparr>nrows = 0, columns = [(''subset'', []), (''qubits'', []), (''timestamp'', [])]\<rparr> \<and>
   map_sum id fst (simulate_ramp_down example_pool 0 1000000 3000000 example_env) =
     Inr \<lparr>nrows = 0, columns = [(''qubits'', []), (''timestamp'', [])]\<rparr>"
  by code_simp

section \<open>The two \<^verbatim>\<open>while\<close> loops\<close>

text \<open>The low-activity loop returns, with any invariant its body keeps.\<close>

lemma bursty_idle_rule:
  assumes "I s"
    and step: "\<And>s. I s \<Longrightarrow> int (length (timestamps s)) < n \<Longrightarrow>
      I (s\<lparr>timestamps := timestamps s @ [datetime_timestamp (current_time s)],
           current_time := current_time s + low\<rparr>)"
  shows "\<exists>s'. bursty_idle n low s = Some s' \<and> I s' \<and> \<not> int (length (timestamps s')) < n"
  using assms(1)
proof (induction "nat n - length (timestamps s)" arbitrary: s rule: less_induct)
  case less
  show ?case
  proof (cases "int (length (timestamps s)) < n")
    case True
    let ?s1 = "s\<lparr>timestamps := timestamps s @ [datetime_timestamp (current_time s)],
                 current_time := current_time s + low\<rparr>"
    have "nat n - length (timestamps ?s1) < nat n - length (timestamps s)"
      using True by simp
    from less.hyps [OF this step [OF less.prems True]]
    obtain s' where "bursty_idle n low ?s1 = Some s'" "I s'" "\<not> int (length (timestamps s')) < n"
      by blast
    then show ?thesis
      using True by (subst bursty_idle.simps) simp
  next
    case False
    then show ?thesis
      using less.prems by (subst bursty_idle.simps) simp
  qed
qed

text \<open>One pass of the loop of \<^verbatim>\<open>generate_random_bursts\<close> that does not raise adds at
  least one timestamp, and never goes past the count.\<close>

lemma random_bursts_burst_bound:
  "length (timestamps s) \<le> nat n \<Longrightarrow>
   length (timestamps (random_bursts_burst k n bd s)) \<le> nat n"
proof (induction k arbitrary: s)
  case 0
  then show ?case by simp
next
  case (Suc k)
  show ?case
  proof (cases "n \<le> int (length (timestamps s))")
    case True
    with Suc.prems show ?thesis by simp
  next
    case False
    obtain x g where u: "random_uniform 0 (total_seconds bd) (rnd s) = (x, g)"
      by (cases "random_uniform 0 (total_seconds bd) (rnd s)")
    let ?s1 = "\<lparr>timestamps = timestamps s @ [datetime_timestamp (current_time s)],
                current_time = current_time s + timedelta_seconds x, rnd = g\<rparr>"
    from False have "length (timestamps ?s1) \<le> nat n" by simp
    from Suc.IH [OF this] show ?thesis using False u by simp
  qed
qed

lemma random_bursts_step_progress:
  assumes "int (length (timestamps s)) < n"
    and "random_bursts_step n ch bd m ni s = Inr s'"
  shows "length (timestamps s) < length (timestamps s')"
    and "length (timestamps s') \<le> nat n"
    and "prefix (timestamps s @ [datetime_timestamp (current_time s)]) (timestamps s')"
proof -
  obtain u g where r: "random_random (rnd s) = (u, g)"
    by (cases "random_random (rnd s)")
  have "length (timestamps s) < length (timestamps s') \<and> length (timestamps s') \<le> nat n \<and>
        prefix (timestamps s @ [datetime_timestamp (current_time s)]) (timestamps s')"
  proof (cases "u < ch")
    case True
    with assms(2) r obtain k g' where ri: "random_randint 1 m g = Inr (k, g')"
      and s': "s' = random_bursts_burst (nat k) n bd (s\<lparr>rnd := g'\<rparr>)"
      by (auto simp: random_bursts_step_def split: sum.splits)
    from randint_Inr(1) [OF ri] obtain j where k: "nat k = Suc j"
      by (cases "nat k") simp_all
    have p: "prefix (timestamps s @ [datetime_timestamp (current_time s)]) (timestamps s')"
      using random_bursts_burst_first [of "s\<lparr>rnd := g'\<rparr>" n j bd] assms(1) s' k by simp
    then have "length (timestamps s @ [datetime_timestamp (current_time s)]) \<le> length (timestamps s')"
      by (rule prefix_length_le)
    moreover have "length (timestamps s') \<le> nat n"
      using random_bursts_burst_bound [of "s\<lparr>rnd := g'\<rparr>" n "nat k" bd] assms(1) s' by simp
    ultimately show ?thesis using p by simp
  next
    case False
    with assms(2) r have "s' = s\<lparr>timestamps := timestamps s @ [datetime_timestamp (current_time s)],
        current_time := current_time s + ni, rnd := g\<rparr>"
      by (simp add: random_bursts_step_def)
    then show ?thesis using assms(1) by simp
  qed
  then show "length (timestamps s) < length (timestamps s')"
    and "length (timestamps s') \<le> nat n"
    and "prefix (timestamps s @ [datetime_timestamp (current_time s)]) (timestamps s')"
    by simp_all
qed

text \<open>The loop of \<^verbatim>\<open>generate_random_bursts\<close> returns (a cursor or an exception), with
  any invariant its passes keep.\<close>

lemma random_bursts_while_rule:
  assumes "I s"
    and step: "\<And>s s'. I s \<Longrightarrow> int (length (timestamps s)) < n \<Longrightarrow>
      random_bursts_step n ch bd m ni s = Inr s' \<Longrightarrow> I s'"
  shows "\<exists>r. random_bursts_while n ch bd m ni s = Some r \<and>
           (\<forall>s'. r = Inr s' \<longrightarrow> I s' \<and> \<not> int (length (timestamps s')) < n)"
  using assms(1)
proof (induction "nat n - length (timestamps s)" arbitrary: s rule: less_induct)
  case less
  show ?case
  proof (cases "int (length (timestamps s)) < n")
    case True
    show ?thesis
    proof (cases "random_bursts_step n ch bd m ni s")
      case (Inl err)
      then show ?thesis
        using True by (subst random_bursts_while.simps) simp
    next
      case (Inr s1)
      have "nat n - length (timestamps s1) < nat n - length (timestamps s)"
        using random_bursts_step_progress(1) [OF True Inr] True by linarith
      from less.hyps [OF this step [OF less.prems True Inr]]
      show ?thesis
        using True Inr by (subst random_bursts_while.simps) simp
    qed
  next
    case False
    then show ?thesis
      using less.prems by (subst random_bursts_while.simps) simp
  qed
qed

lemma random_bursts_while_returns:
  "\<exists>r. random_bursts_while n ch bd m ni s = Some r"
  using random_bursts_while_rule [of "\<lambda>s. True" s n ch bd m ni] by blast

lemma bursty_idle_returns: "\<exists>s'. bursty_idle n low s = Some s'"
  using bursty_idle_rule [of "\<lambda>s. True" s n low] by blast

lemma bursty_returns: "\<exists>r. generate_bursty_dataset pool n bd bt low e = Some r"
proof -
  have "\<exists>s. bursty_timestamps n bd bt low (clock e) (py_random e) = Some s"
    unfolding bursty_timestamps_def by (rule bursty_idle_returns)
  then obtain s where "bursty_timestamps n bd bt low (clock e) (py_random e) = Some s" ..
  then show ?thesis
    by (simp add: generate_bursty_dataset_def split: sum.splits prod.splits)
qed

lemma random_bursts_returns: "\<exists>r. generate_random_bursts pool n ch bd m ni e = Some r"
proof -
  have "\<exists>r. random_bursts_timestamps n ch bd m ni (clock e) (py_random e) = Some r"
    unfolding random_bursts_timestamps_def by (rule random_bursts_while_returns)
  then obtain r where "random_bursts_timestamps n ch bd m ni (clock e) (py_random e) = Some r" ..
  then show ?thesis
    by (simp add: generate_random_bursts_def split: sum.splits prod.splits)
qed

lemma generate_workload_returns: "\<exists>r. generate_workload pool scenario kw e = Some r"
  using bursty_returns random_bursts_returns
  by (cases kw) (auto simp: generate_workload_def)

lemma bursty_idle_count:
  "\<exists>s'. bursty_idle n low s = Some s' \<and>
     length (timestamps s') = max (length (timestamps s)) (nat n) \<and>
     prefix (timestamps s) (timestamps s')"
proof -
  let ?I = "\<lambda>s'. length (timestamps s') \<le> max (length (timestamps s)) (nat n) \<and>
              prefix (timestamps s) (timestamps s')"
  have "\<exists>s'. bursty_idle n low s = Some s' \<and> ?I s' \<and> \<not> int (length (timestamps s')) < n"
  proof (rule bursty_idle_rule [where I = ?I])
    show "?I s" by simp
  next
    fix s1 :: cursor
    assume i: "?I s1" and lt: "int (length (timestamps s1)) < n"
    from i have "prefix (timestamps s) (timestamps s1 @ [datetime_timestamp (current_time s1)])"
      by simp
    moreover from lt have "Suc (length (timestamps s1)) \<le> max (length (timestamps s)) (nat n)"
      by linarith
    ultimately show "?I (s1\<lparr>timestamps := timestamps s1 @ [datetime_timestamp (current_time s1)],
           current_time := current_time s1 + low\<rparr>)"
      by simp
  qed
  then obtain s' where s': "bursty_idle n low s = Some s'" "?I s'"
      "\<not> int (length (timestamps s')) < n"
    by blast
  from s'(2) have "length (timestamps s) \<le> length (timestamps s')"
    by (simp add: prefix_length_le)
  with s' show ?thesis by auto
qed


lemma random_bursts_step_ok:
  "1 \<le> m \<Longrightarrow> \<exists>s'. random_bursts_step n ch bd m ni s = Inr s'"
  by (simp add: random_bursts_step_def random_randint_def split: prod.splits)

text \<open>
  Claim C8. Generation returns for every input: the two generators with a \<^verbatim>\<open>while\<close>
  loop, and the dispatcher over all strategies (the other loops are \<^verbatim>\<open>for\<close> loops over a
  range), return a dataset or an exception. The low-activity loop of
  \<^verbatim>\<open>generate_bursty_dataset\<close> ends with the count at \<open>num_qtasks\<close> (or where it
  started, when that is more); a pass of the loop of \<^verbatim>\<open>generate_random_bursts\<close> that
  does not raise adds at least one timestamp and does not go past \<open>num_qtasks\<close>, and with
  \<open>max_tasks_in_burst\<close> at least 1 no pass raises.
\<close>

theorem generation_terminates:
  "(\<exists>r. generate_bursty_dataset pool n bd bt low e = Some r) \<and>
   (\<exists>r. generate_random_bursts pool n ch bd m ni e = Some r) \<and>
   (\<exists>r. generate_workload pool scenario kw e = Some r) \<and>
   (\<exists>s'. bursty_idle n low s = Some s' \<and>
      length (timestamps s') = max (length (timestamps s)) (nat n)) \<and>
   (int (length (timestamps s)) < n \<longrightarrow> random_bursts_step n ch bd m ni s = Inr s1 \<longrightarrow>
      length (timestamps s) < length (timestamps s1) \<and> length (timestamps s1) \<le> nat n) \<and>
   (1 \<le> m \<longrightarrow> (\<exists>s'. random_bursts_step n ch bd m ni s = Inr s'))"
  using bursty_returns [of pool n bd bt low e] random_bursts_returns [of pool n ch bd m ni e]
    generate_workload_returns [of pool scenario kw e] bursty_idle_count [of n low s]
    random_bursts_step_progress(1,2) [of s n ch bd m ni s1] random_bursts_step_ok [of m n ch bd ni s]
  by blast

text \<open>Claim C8 on the example: a pass of the loop from the empty list, with no burst.\<close>

theorem generation_terminates_witness:
  "int (length (timestamps \<lparr>timestamps = [], current_time = 0, rnd = (\<lambda>i. 0)\<rparr>)) < 2 \<and>
   (1::int) \<le> 1 \<and>
   random_bursts_step 2 0 1000000 1 3000000 \<lparr>timestamps = [], current_time = 0, rnd = (\<lambda>i. 0)\<rparr>
     = Inr \<lparr>timestamps = [0], current_time = 3000000, rnd = (\<lambda>i. 0)\<rparr> \<and>
   length (timestamps \<lparr>timestamps = [], current_time = 0, rnd = (\<lambda>i. 0)\<rparr>)
     < length (timestamps \<lparr>timestamps = [0], current_time = 3000000, rnd = (\<lambda>i. 0)\<rparr>) \<and>
   (\<exists>r. generate_workload example_pool 5 (RandomBurstsArgs 2 0 1000000 1 3000000) example_env = Some r)"
proof -
  have step: "random_bursts_step 2 0 1000000 1 3000000
      \<lparr>timestamps = [], current_time = 0, rnd = (\<lambda>i. 0)\<rparr>
     = Inr \<lparr>timestamps = [0], current_time = 3000000, rnd = (\<lambda>i. 0)\<rparr>"
    by (simp add: random_bursts_step_def random_random_def advance_def datetime_timestamp_def)
  from generation_terminates [of example_pool 2 1000000 1 1000000 example_env 0 1 3000000 5
      "RandomBurstsArgs 2 0 1000000 1 3000000"
      "\<lparr>timestamps = [], current_time = 0, rnd = (\<lambda>i. 0)\<rparr>"
      "\<lparr>timestamps = [0], current_time = 3000000, rnd = (\<lambda>i. 0)\<rparr>"] step
  show ?thesis by simp
qed

section \<open>What a returned dataset holds\<close>

lemma single_spike_result:
  assumes "generate_single_spike_dataset pool n bd ni bt e = Inr (df, e')"
  shows "get_column df ''timestamp'' =
           Some (map FloatVal (timestamps (single_spike_timestamps n bd ni bt (clock e) (py_random e))))"
    and "length (timestamps (single_spike_timestamps n bd ni bt (clock e) (py_random e))) = nat n"
    and "0 \<le> n"
    and "columns df \<noteq> [] \<and> hd (columns df) = (''subset'', replicate (nat n) (IntVal 1))"
    and "files e' = (files e)(''single_spike_dataset.csv'' \<mapsto> df)"
proof -
  let ?s = "single_spike_timestamps n bd ni bt (clock e) (py_random e)"
  from assms obtain sdf np where sam: "sample pool n (np_random e) = Inr (sdf, np)"
    by (auto simp: generate_single_spike_dataset_def split: sum.splits)
  with assms have eq: "(case set_column sdf ''timestamp'' (map FloatVal (timestamps ?s)) of
        Inl err \<Rightarrow> Inl err
      | Inr df1 \<Rightarrow>
          (case insert_first df1 ''subset'' (IntVal 1) of
             Inl err \<Rightarrow> Inl err
           | Inr df2 \<Rightarrow> Inr (df2, to_csv df2 ''single_spike_dataset.csv''
               (e\<lparr>py_random := rnd ?s, np_random := np\<rparr>)))) = Inr (df, e')"
    by (simp add: generate_single_spike_dataset_def Let_def)
  note a = attach_Inr [OF eq] and sm = sample_Inr [OF sam]
  show "get_column df ''timestamp'' = Some (map FloatVal (timestamps ?s))" by (rule a(1))
  show "length (timestamps ?s) = nat n" using a(2) sm(2) by simp
  show "0 \<le> n" by (rule sm(1))
  show "columns df \<noteq> [] \<and> hd (columns df) = (''subset'', replicate (nat n) (IntVal 1))"
    using a(3) sm(2) by simp
  show "files e' = (files e)(''single_spike_dataset.csv'' \<mapsto> df)"
    using a(4) by simp
qed

lemma bursty_result:
  assumes "generate_bursty_dataset pool n bd bt low e = Some (Inr (df, e'))"
  shows "\<exists>s. bursty_timestamps n bd bt low (clock e) (py_random e) = Some s \<and>
           get_column df ''timestamp'' = Some (map FloatVal (slice_to (timestamps s) n)) \<and>
           length (slice_to (timestamps s) n) = nat n"
    and "0 \<le> n"
    and "columns df \<noteq> [] \<and> hd (columns df) = (''subset'', replicate (nat n) (IntVal 1))"
    and "files e' = (files e)(''bursty_dataset.csv'' \<mapsto> df)"
proof -
  from assms obtain sdf np where sam: "sample pool n (np_random e) = Inr (sdf, np)"
    by (auto simp: generate_bursty_dataset_def split: sum.splits)
  with assms obtain s :: cursor
    where s: "bursty_timestamps n bd bt low (clock e) (py_random e) = Some s"
    by (auto simp: generate_bursty_dataset_def split: option.splits)
  with assms sam have eq: "(case set_column sdf ''timestamp''
            (map FloatVal (slice_to (timestamps s) n)) of
        Inl err \<Rightarrow> Inl err
      | Inr df1 \<Rightarrow>
          (case insert_first df1 ''subset'' (IntVal 1) of
             Inl err \<Rightarrow> Inl err
           | Inr df2 \<Rightarrow> Inr (df2, to_csv df2 ''bursty_dataset.csv''
               (e\<lparr>py_random := rnd s, np_random := np\<rparr>)))) = Inr (df, e')"
    by (simp add: generate_bursty_dataset_def)
  note a = attach_Inr [OF eq] and sm = sample_Inr [OF sam]
  show "\<exists>s. bursty_timestamps n bd bt low (clock e) (py_random e) = Some s \<and>
           get_column df ''timestamp'' = Some (map FloatVal (slice_to (timestamps s) n)) \<and>
           length (slice_to (timestamps s) n) = nat n"
    using s a(1) a(2) sm(2) by simp
  show "0 \<le> n" by (rule sm(1))
  show "columns df \<noteq> [] \<and> hd (columns df) = (''subset'', replicate (nat n) (IntVal 1))"
    using a(3) sm(2) by simp
  show "files e' = (files e)(''bursty_dataset.csv'' \<mapsto> df)"
    using a(4) by simp
qed

lemma regular_spikes_result:
  assumes "simulate_regular_spikes pool n si st ni e = Inr (df, e')"
  shows "\<exists>s. regular_spikes_timestamps n si st ni (clock e) (py_random e) = Inr s \<and>
           get_column df ''timestamp'' = Some (map FloatVal (slice_to (timestamps s) n)) \<and>
           length (slice_to (timestamps s) n) = nat n"
    and "0 \<le> n"
    and "columns df \<noteq> [] \<and> hd (columns df) = (''subset'', replicate (nat n) (IntVal 1))"
    and "files e' = (files e)(''regular_spike_dataset.csv'' \<mapsto> df)"
proof -
  from assms obtain sdf np where sam: "sample pool n (np_random e) = Inr (sdf, np)"
    by (auto simp: simulate_regular_spikes_def split: sum.splits)
  with assms obtain s :: cursor
    where s: "regular_spikes_timestamps n si st ni (clock e) (py_random e) = Inr s"
    by (auto simp: simulate_regular_spikes_def split: sum.splits)
  with assms sam have eq: "(case set_column sdf ''timestamp''
            (map FloatVal (slice_to (timestamps s) n)) of
        Inl err \<Rightarrow> Inl err
      | Inr df1 \<Rightarrow>
          (case insert_first df1 ''subset'' (IntVal 1) of
             Inl err \<Rightarrow> Inl err
           | Inr df2 \<Rightarrow> Inr (df2, to_csv df2 ''regular_spike_dataset.csv''
               (e\<lparr>py_random := rnd s, np_random := np\<rparr>)))) = Inr (df, e')"
    by (simp add: simulate_regular_spikes_def)
  note a = attach_Inr [OF eq] and sm = sample_Inr [OF sam]
  show "\<exists>s. regular_spikes_timestamps n si st ni (clock e) (py_random e) = Inr s \<and>
           get_column df ''timestamp'' = Some (map FloatVal (slice_to (timestamps s) n)) \<and>
           length (slice_to (timestamps s) n) = nat n"
    using s a(1) a(2) sm(2) by simp
  show "0 \<le> n" by (rule sm(1))
  show "columns df \<noteq> [] \<and> hd (columns df) = (''subset'', replicate (nat n) (IntVal 1))"
    using a(3) sm(2) by simp
  show "files e' = (files e)(''regular_spike_dataset.csv'' \<mapsto> df)"
    using a(4) by simp
qed

lemma ramp_up_result:
  assumes "simulate_ramp_up pool n ini fin e = Inr (df, e')"
  shows "\<exists>s. ramp_up_timestamps n ini fin (clock e) (py_random e) = Inr s \<and>
           get_column df ''timestamp'' = Some (map FloatVal (slice_to (timestamps s) n)) \<and>
           length (slice_to (timestamps s) n) = nat n"
    and "0 \<le> n"
    and "columns df \<noteq> [] \<and> hd (columns df) = (''subset'', replicate (nat n) (IntVal 1))"
    and "files e' = (files e)(''ramp_up_dataset.csv'' \<mapsto> df)"
proof -
  from assms obtain sdf np where sam: "sample pool n (np_random e) = Inr (sdf, np)"
    by (auto simp: simulate_ramp_up_def split: sum.splits)
  with assms obtain s :: cursor
    where s: "ramp_up_timestamps n ini fin (clock e) (py_random e) = Inr s"
    by (auto simp: simulate_ramp_up_def split: sum.splits)
  with assms sam have eq: "(case set_column sdf ''timestamp''
            (map FloatVal (slice_to (timestamps s) n)) of
        Inl err \<Rightarrow> Inl err
      | Inr df1 \<Rightarrow>
          (case insert_first df1 ''subset'' (IntVal 1) of
             Inl err \<Rightarrow> Inl err
           | Inr df2 \<Rightarrow> Inr (df2, to_csv df2 ''ramp_up_dataset.csv''
               (e\<lparr>py_random := rnd s, np_random := np\<rparr>)))) = Inr (df, e')"
    by (simp add: simulate_ramp_up_def)
  note a = attach_Inr [OF eq] and sm = sample_Inr [OF sam]
  show "\<exists>s. ramp_up_timestamps n ini fin (clock e) (py_random e) = Inr s \<and>
           get_column df ''timestamp'' = Some (map FloatVal (slice_to (timestamps s) n)) \<and>
           length (slice_to (timestamps s) n) = nat n"
    using s a(1) a(2) sm(2) by simp
  show "0 \<le> n" by (rule sm(1))
  show "columns df \<noteq> [] \<and> hd (columns df) = (''subset'', replicate (nat n) (IntVal 1))"
    using a(3) sm(2) by simp
  show "files e' = (files e)(''ramp_up_dataset.csv'' \<mapsto> df)"
    using a(4) by simp
qed

lemma ramp_down_result:
  assumes "simulate_ramp_down pool n ini fin e = Inr (df, e')"
  shows "\<exists>s. ramp_down_timestamps n ini fin (clock e) (py_random e) = Inr s \<and>
           get_column df ''timestamp'' = Some (map FloatVal (slice_to (timestamps s) n)) \<and>
           length (slice_to (timestamps s) n) = nat n"
    and "0 \<le> n"
    and "files e' = (files e)(''ramp_down_dataset.csv'' \<mapsto> df)"
proof -
  from assms obtain sdf np where sam: "sample pool n (np_random e) = Inr (sdf, np)"
    by (auto simp: simulate_ramp_down_def split: sum.splits)
  with assms obtain s :: cursor
    where s: "ramp_down_timestamps n ini fin (clock e) (py_random e) = Inr s"
    by (auto simp: simulate_ramp_down_def split: sum.splits)
  with assms sam have sc: "set_column sdf ''timestamp''
      (map FloatVal (slice_to (timestamps s) n)) = Inr df"
    and e': "e' = to_csv df ''ramp_down_dataset.csv'' (e\<lparr>py_random := rnd s, np_random := np\<rparr>)"
    by (auto simp: simulate_ramp_down_def split: sum.splits)
  note a = set_column_Inr [OF sc] and sm = sample_Inr [OF sam]
  show "\<exists>s. ramp_down_timestamps n ini fin (clock e) (py_random e) = Inr s \<and>
           get_column df ''timestamp'' = Some (map FloatVal (slice_to (timestamps s) n)) \<and>
           length (slice_to (timestamps s) n) = nat n"
    using s a(1) a(3) sm(2) by simp
  show "0 \<le> n" by (rule sm(1))
  show "files e' = (files e)(''ramp_down_dataset.csv'' \<mapsto> df)"
    using e' by (simp add: to_csv_def)
qed

lemma random_bursts_result:
  assumes "generate_random_bursts pool n ch bd m ni e = Some (Inr (df, e'))"
  shows "\<exists>s. random_bursts_timestamps n ch bd m ni (clock e) (py_random e) = Some (Inr s) \<and>
           get_column df ''timestamp'' = Some (map FloatVal (slice_to (timestamps s) n)) \<and>
           length (slice_to (timestamps s) n) = nat n"
    and "0 \<le> n"
    and "columns df \<noteq> [] \<and> hd (columns df) = (''subset'', replicate (nat n) (IntVal 1))"
    and "files e' = (files e)(''random_burst_dataset.csv'' \<mapsto> df)"
proof -
  from assms obtain sdf np where sam: "sample pool n (np_random e) = Inr (sdf, np)"
    by (auto simp: generate_random_bursts_def split: sum.splits)
  with assms obtain s :: cursor
    where s: "random_bursts_timestamps n ch bd m ni (clock e) (py_random e) = Some (Inr s)"
    by (auto simp: generate_random_bursts_def split: option.splits sum.splits)
  with assms sam have eq: "(case set_column sdf ''timestamp''
            (map FloatVal (slice_to (timestamps s) n)) of
        Inl err \<Rightarrow> Inl err
      | Inr df1 \<Rightarrow>
          (case insert_first df1 ''subset'' (IntVal 1) of
             Inl err \<Rightarrow> Inl err
           | Inr df2 \<Rightarrow> Inr (df2, to_csv df2 ''random_burst_dataset.csv''
               (e\<lparr>py_random := rnd s, np_random := np\<rparr>)))) = Inr (df, e')"
    by (simp add: generate_random_bursts_def)
  note a = attach_Inr [OF eq] and sm = sample_Inr [OF sam]
  show "\<exists>s. random_bursts_timestamps n ch bd m ni (clock e) (py_random e) = Some (Inr s) \<and>
           get_column df ''timestamp'' = Some (map FloatVal (slice_to (timestamps s) n)) \<and>
           length (slice_to (timestamps s) n) = nat n"
    using s a(1) a(2) sm(2) by simp
  show "0 \<le> n" by (rule sm(1))
  show "columns df \<noteq> [] \<and> hd (columns df) = (''subset'', replicate (nat n) (IntVal 1))"
    using a(3) sm(2) by simp
  show "files e' = (files e)(''random_burst_dataset.csv'' \<mapsto> df)"
    using a(4) by simp
qed

lemma map_invocation_times_files:
  assumes "map_invocation_times pool itimes e = Inr (df, e')"
  shows "files e' = (files e)(''map_invocation_times_dataset.csv'' \<mapsto> df)"
proof -
  from assms obtain sdf np where sam: "sample pool (int (nrows itimes)) (np_random e) = Inr (sdf, np)"
    by (auto simp: map_invocation_times_def Let_def split: sum.splits)
  with assms obtain col where "get_column itimes ''timestamp'' = Some col"
    by (auto simp: map_invocation_times_def Let_def split: option.splits)
  with assms sam have eq: "(case set_column sdf ''timestamp'' col of
        Inl err \<Rightarrow> Inl err
      | Inr df1 \<Rightarrow>
          (case insert_first df1 ''subset'' (IntVal 1) of
             Inl err \<Rightarrow> Inl err
           | Inr df2 \<Rightarrow> Inr (df2, to_csv df2 ''map_invocation_times_dataset.csv''
               (e\<lparr>np_random := np\<rparr>)))) = Inr (df, e')"
    by (simp add: map_invocation_times_def Let_def)
  from attach_Inr(4) [OF eq] show ?thesis by simp
qed

section \<open>Calls that return a dataset\<close>

lemma example_pool_ok:
  "0 < nrows example_pool" "''subset'' \<notin> set (column_names example_pool)"
  by (simp_all add: example_pool_def column_names_def)

lemma sample_some:
  assumes "0 \<le> n" and "0 < nrows pool"
  obtains sdf np where "sample pool n g = Inr (sdf, np)" "nrows sdf = nat n"
    "column_names sdf = column_names pool"
proof -
  from sample_ok [OF assms] obtain sdf np where s: "sample pool n g = Inr (sdf, np)"
    by blast
  from sample_Inr(2,3) [OF s] s that show ?thesis by blast
qed

lemma single_spike_ok:
  assumes "0 \<le> bt" and "bt \<le> n" and "0 < nrows pool"
    and "''subset'' \<notin> set (column_names pool)"
  shows "\<exists>df e'. generate_single_spike_dataset pool n bd ni bt e = Inr (df, e')"
proof -
  from assms(1,2) have n: "0 \<le> n" by simp
  obtain sdf np where s: "sample pool n (np_random e) = Inr (sdf, np)"
    and rows: "nrows sdf = nat n" and names: "column_names sdf = column_names pool"
    by (rule sample_some [OF n assms(3), of "np_random e"])
  let ?s = "single_spike_timestamps n bd ni bt (clock e) (py_random e)"
  have "length (map FloatVal (timestamps ?s)) = nrows sdf"
    using assms(1,2) rows by (simp add: single_spike_timestamps_length)
  from attach_ok [OF this, of "''single_spike_dataset.csv''"
      "e\<lparr>py_random := rnd ?s, np_random := np\<rparr>"] assms(4) names
  show ?thesis
    using s by (simp add: generate_single_spike_dataset_def Let_def)
qed


lemma ramp_up_for_length:
  "length (timestamps (ramp_up_for ini st is s)) = length (timestamps s) + length is"
  by (induction "is" arbitrary: s) simp_all


lemma length_py_range [simp]: "length (py_range n) = nat n"
  by (simp add: py_range_def)

lemma ramp_up_ok:
  assumes "0 \<le> n" and "n \<noteq> 1" and "0 < nrows pool"
    and "''subset'' \<notin> set (column_names pool)"
  shows "\<exists>df e'. simulate_ramp_up pool n ini fin e = Inr (df, e')"
proof -
  obtain sdf np where s: "sample pool n (np_random e) = Inr (sdf, np)"
    and rows: "nrows sdf = nat n" and names: "column_names sdf = column_names pool"
    by (rule sample_some [OF assms(1,3), of "np_random e"])
  from assms(2) obtain c :: cursor
    where c: "ramp_up_timestamps n ini fin (clock e) (py_random e) = Inr c"
      and len: "length (timestamps c) = nat n"
    by (simp add: ramp_up_timestamps_def timedelta_truediv_def ramp_up_for_length)
  have "length (map FloatVal (slice_to (timestamps c) n)) = nrows sdf"
    using assms(1) rows len by (simp add: length_slice_to)
  from attach_ok [OF this, of "''ramp_up_dataset.csv''"
      "e\<lparr>py_random := rnd c, np_random := np\<rparr>"] assms(4) names
  show ?thesis
    using s c by (simp add: simulate_ramp_up_def)
qed




section \<open>The dispatcher\<close>

lemma generate_workload_keeps_single_spike_file:
  assumes "generate_workload pool scenario kw e = Some (Inr (df, e'))"
  shows "files e' ''single_spike_dataset.csv'' = files e ''single_spike_dataset.csv''"
proof (cases kw)
  case (SingleSpikeArgs n bd ni bt)
  with assms show ?thesis
    by (simp add: generate_workload_def split: if_splits)
next
  case (BurstyArgs n bd bt low)
  with assms have "generate_bursty_dataset pool n bd bt low e = Some (Inr (df, e'))"
    by (simp add: generate_workload_def split: if_splits)
  from bursty_result(4) [OF this] show ?thesis by simp
next
  case (RegularSpikesArgs n si st ni)
  with assms have "simulate_regular_spikes pool n si st ni e = Inr (df, e')"
    by (simp add: generate_workload_def split: if_splits)
  from regular_spikes_result(4) [OF this] show ?thesis by simp
next
  case (RampArgs n ini fin)
  with assms have "simulate_ramp_up pool n ini fin e = Inr (df, e') \<or>
      simulate_ramp_down pool n ini fin e = Inr (df, e')"
    by (simp add: generate_workload_def split: if_splits)
  then show ?thesis
    using ramp_up_result(4) [of pool n ini fin e df e']
      ramp_down_result(3) [of pool n ini fin e df e']
    by auto
next
  case (RandomBurstsArgs n ch bd m ni)
  with assms have "generate_random_bursts pool n ch bd m ni e = Some (Inr (df, e'))"
    by (simp add: generate_workload_def split: if_splits)
  from random_bursts_result(4) [OF this] show ?thesis by simp
next
  case (InvocationArgs itimes)
  with assms have "map_invocation_times pool itimes e = Inr (df, e')"
    by (simp add: generate_workload_def split: if_splits)
  from map_invocation_times_files [OF this] show ?thesis by simp
next
  case OtherArgs
  with assms show ?thesis
    by (simp add: generate_workload_def split: if_splits)
qed

lemma generate_workload_single_spike_args:
  "generate_workload pool scenario (SingleSpikeArgs n bd ni bt) e
     \<in> {Some (Inl TypeError), Some (Inl ValueError)}"
  by (simp add: generate_workload_def)

text \<open>
  Claim C10. \<^verbatim>\<open>generate_workload\<close> runs the bursty-then-idle generator for scenario 1
  and regular spikes, ramp-up, ramp-down, random bursts and the pass-through mapping for
  scenarios 2 to 6. No scenario runs \<^verbatim>\<open>generate_single_spike_dataset\<close>: its keywords
  are refused under every scenario, and no call of \<^verbatim>\<open>generate_workload\<close> that returns
  a dataset touches the file \<^verbatim>\<open>single_spike_dataset.csv\<close>, which every successful call of
  \<^verbatim>\<open>generate_single_spike_dataset\<close> writes.
\<close>

theorem generate_workload_dispatch:
  "generate_workload pool 1 (BurstyArgs n bd bt low) e =
     generate_bursty_dataset pool n bd bt low e \<and>
   generate_workload pool 2 (RegularSpikesArgs n si st ni) e =
     Some (simulate_regular_spikes pool n si st ni e) \<and>
   generate_workload pool 3 (RampArgs n ini fin) e = Some (simulate_ramp_up pool n ini fin e) \<and>
   generate_workload pool 4 (RampArgs n ini fin) e = Some (simulate_ramp_down pool n ini fin e) \<and>
   generate_workload pool 5 (RandomBurstsArgs n ch bd m ni) e =
     generate_random_bursts pool n ch bd m ni e \<and>
   generate_workload pool 6 (InvocationArgs itimes) e =
     Some (map_invocation_times pool itimes e) \<and>
   generate_workload pool scenario (SingleSpikeArgs n bd ni bt) e
     \<in> {Some (Inl TypeError), Some (Inl ValueError)} \<and>
   (generate_workload pool scenario kw e = Some (Inr (df, e')) \<longrightarrow>
      files e' ''single_spike_dataset.csv'' = files e ''single_spike_dataset.csv'') \<and>
   (generate_single_spike_dataset pool n bd ni bt e = Inr (df1, e1) \<longrightarrow>
      files e1 ''single_spike_dataset.csv'' = Some df1)"
proof -
  have disp: "generate_workload pool 1 (BurstyArgs n bd bt low) e =
      generate_bursty_dataset pool n bd bt low e"
    "generate_workload pool 2 (RegularSpikesArgs n si st ni) e =
      Some (simulate_regular_spikes pool n si st ni e)"
    "generate_workload pool 3 (RampArgs n ini fin) e = Some (simulate_ramp_up pool n ini fin e)"
    "generate_workload pool 4 (RampArgs n ini fin) e = Some (simulate_ramp_down pool n ini fin e)"
    "generate_workload pool 5 (RandomBurstsArgs n ch bd m ni) e =
      generate_random_bursts pool n ch bd m ni e"
    "generate_workload pool 6 (InvocationArgs itimes) e =
      Some (map_invocation_times pool itimes e)"
    by (simp_all add: generate_workload_def)
  have keep: "generate_workload pool scenario kw e = Some (Inr (df, e')) \<longrightarrow>
      files e' ''single_spike_dataset.csv'' = files e ''single_spike_dataset.csv''"
    by (rule impI) (rule generate_workload_keeps_single_spike_file)
  have own: "generate_single_spike_dataset pool n bd ni bt e = Inr (df1, e1) \<longrightarrow>
      files e1 ''single_spike_dataset.csv'' = Some df1"
  proof
    assume "generate_single_spike_dataset pool n bd ni bt e = Inr (df1, e1)"
    from single_spike_result(5) [OF this] show "files e1 ''single_spike_dataset.csv'' = Some df1"
      by simp
  qed
  from disp keep own generate_workload_single_spike_args [of pool scenario n bd ni bt e]
  show ?thesis by blast
qed

text \<open>Claim C10 on the example: scenario 3 returns the ramp-up dataset and leaves the
  single-spike file unwritten; a direct call of the single-spike generator writes it.\<close>

theorem generate_workload_dispatch_witness:
  "\<exists>df e' df1 e1.
     generate_workload example_pool 3 (RampArgs 2 3000000 1000000) example_env = Some (Inr (df, e')) \<and>
     files e' ''single_spike_dataset.csv'' = None \<and>
     generate_single_spike_dataset example_pool 2 1000000 1000000 1 example_env = Inr (df1, e1) \<and>
     files e1 ''single_spike_dataset.csv'' = Some df1"
proof -
  from ramp_up_ok [of 2 example_pool 3000000 1000000 example_env] example_pool_ok
  obtain df e' where r: "simulate_ramp_up example_pool 2 3000000 1000000 example_env = Inr (df, e')"
    by auto
  from single_spike_ok [of 1 2 example_pool 1000000 1000000 example_env] example_pool_ok
  obtain df1 e1
    where s: "generate_single_spike_dataset example_pool 2 1000000 1000000 1 example_env
      = Inr (df1, e1)"
    by auto
  note d = generate_workload_dispatch [where pool = example_pool and e = example_env
      and scenario = 3 and kw = "RampArgs 2 3000000 1000000" and n = 2 and ini = 3000000
      and fin = 1000000 and bd = 1000000 and ni = 1000000 and bt = 1
      and df = df and e' = e' and ?df1.0 = df1 and ?e1.0 = e1]
  from d r have w: "generate_workload example_pool 3 (RampArgs 2 3000000 1000000) example_env
      = Some (Inr (df, e'))"
    by simp
  from d w have "files e' ''single_spike_dataset.csv'' = files example_env ''single_spike_dataset.csv''"
    by blast
  then have k: "files e' ''single_spike_dataset.csv'' = None"
    by (simp add: example_env_def)
  from d s have "files e1 ''single_spike_dataset.csv'' = Some df1"
    by blast
  with w k s show ?thesis by blast
qed

section \<open>The loop of \<^verbatim>\<open>simulate_regular_spikes\<close>\<close>









section \<open>Order of the timestamps that are returned\<close>









section \<open>Gaps\<close>


lemma length_gaps [simp]: "length (gaps xs) = length xs - 1"
  by (induction xs rule: gaps.induct) simp_all


section \<open>Random bursts with no burst\<close>





section \<open>The gaps of the ramps\<close>










text \<open>The step of a ramp: not negative when the difference is not, and such that
  \<open>n - 1\<close> steps cover the difference to within half a microsecond per step.\<close>

lemma interval_step:
  assumes "timedelta_truediv d k = Inr st" and "0 < k"
  shows "0 \<le> d \<Longrightarrow> 0 \<le> st" and "2 * \<bar>k * st - d\<bar> \<le> k"
proof -
  from assms have st: "st = round_half_even (of_int d / of_int k)"
    by (simp add: timedelta_truediv_def split: if_splits)
  show "0 \<le> st" if "0 \<le> d"
    unfolding st using that assms(2) by (intro round_half_even_nonneg) simp
  have "\<bar>of_int st - of_int d / of_int k\<bar> \<le> (1 / 2 :: rat)"
    unfolding st by (rule round_half_even_near)
  then have "\<bar>of_int st - of_int d / of_int k\<bar> * of_int k \<le> (1 / 2 :: rat) * of_int k"
    using assms(2) by (intro mult_right_mono) simp_all
  moreover have "\<bar>of_int st - of_int d / of_int k\<bar> * (of_int k :: rat) =
      \<bar>of_int (k * st - d)\<bar>"
  proof -
    have "\<bar>of_int st - of_int d / of_int k\<bar> * (of_int k :: rat) =
        \<bar>(of_int st - of_int d / of_int k) * of_int k\<bar>"
      using assms(2) by (simp add: abs_mult)
    also have "(of_int st - of_int d / of_int k) * (of_int k :: rat) = of_int (k * st - d)"
      using assms(2) by (simp add: field_simps)
    finally show ?thesis .
  qed
  ultimately have "2 * (of_int \<bar>k * st - d\<bar> :: rat) \<le> of_int k"
    by simp
  then have "(of_int (2 * \<bar>k * st - d\<bar>) :: rat) \<le> of_int k"
    by simp
  then show "2 * \<bar>k * st - d\<bar> \<le> k"
    by (simp only: of_int_le_iff)
qed






section \<open>The first timestamp\<close>















end
